theory Spec2Isabelle
  imports Main "HOL-Library.Word"
begin

section \<open>The ingestion script: \<^verbatim>\<open>scripts/device_connect_and_parse.py\<close>\<close>

subsection \<open>Data\<close>

text \<open>
  Exceptions are values. \<open>IndexError\<close> is what a list subscript out of range raises,
  \<open>KeyError\<close> a missing dictionary key, \<open>APIError\<close> stands for whatever a call into the
  Supabase client or the HTTP library raises, \<open>BleakError\<close> for what a call on the
  Bluetooth client raises, \<open>UnicodeEncodeError\<close> is what \<open>print\<close> raises for a character
  the console cannot encode, and \<open>OSError\<close> stands for what it raises when the console
  cannot be written to.
\<close>

datatype py_error =
  IndexError | KeyError | APIError | BleakError | UnicodeEncodeError | OSError

text \<open>
  A reading is the dictionary built in \<open>notification_handler\<close> (and a row of the
  \<open>health_data\<close> table). The type of a session id is the store's; it stays a parameter.
  \<open>session_id\<close> is an option because the global \<open>current_session_id\<close> starts as
  \<open>None\<close>.
\<close>

record 'id reading =
  session_id :: "'id option"
  timestamp :: int
  spo2 :: int
  pulse :: int

text \<open>
  The module's globals that the handler and the writer touch, together with the log of
  the calls \<open>supabase.table('health_data').insert(batch).execute()\<close> made so far: each
  entry is the batch handed over and whether the call returned (\<open>True\<close>) or raised.
\<close>

record 'id globals =
  data_buffer :: "'id reading list"
  current_session_id :: "'id option"
  insert_calls :: "('id reading list \<times> bool) list"

text \<open>What the handler prints: nothing, the line of a reading, or the parse error.\<close>

datatype console = Silent | Reading_line int int | Parse_error py_error

text \<open>
  The console the process writes to. The message of line 96 holds the character U+2082
  (the subscript two of the oxygen formula); every other message of the handler is
  plain ASCII. A console either takes every message, or takes ASCII only, or cannot be
  written to at all.
\<close>

datatype stdout = Writes_all | Ascii_only | Closed

text \<open>The \<open>print\<close> of line 96 and the \<open>print\<close> of line 98: the exception raised, if any.\<close>

definition print_reading :: "stdout \<Rightarrow> py_error option" where
  "print_reading out =
     (case out of
        Writes_all \<Rightarrow> None
      | Ascii_only \<Rightarrow> Some UnicodeEncodeError
      | Closed \<Rightarrow> Some OSError)"

definition print_parse_error :: "stdout \<Rightarrow> py_error option" where
  "print_parse_error out =
     (case out of
        Writes_all \<Rightarrow> None
      | Ascii_only \<Rightarrow> None
      | Closed \<Rightarrow> Some OSError)"

subsection \<open>\<open>notification_handler\<close>\<close>

text \<open>Python's \<open>raw[i]\<close> for a constant index \<open>i \<ge> 0\<close>: out of range raises.\<close>

definition subscript :: "'a list \<Rightarrow> nat \<Rightarrow> py_error + 'a" where
  "subscript xs i = (if i < length xs then Inr (xs ! i) else Inl IndexError)"

text \<open>
  The condition of line 86, with Python's left-to-right, short-circuit evaluation:
  \<open>raw[18] == 255 and not (raw[15] == 255 and raw[16] == 127 and raw[17] == 255)\<close>.
\<close>

definition frame_condition :: "int list \<Rightarrow> py_error + bool" where
  "frame_condition raw =
     (case subscript raw 18 of Inl e \<Rightarrow> Inl e
      | Inr b18 \<Rightarrow>
          if b18 \<noteq> 255 then Inr False
          else (case subscript raw 15 of Inl e \<Rightarrow> Inl e
            | Inr b15 \<Rightarrow>
                if b15 \<noteq> 255 then Inr True
                else (case subscript raw 16 of Inl e \<Rightarrow> Inl e
                  | Inr b16 \<Rightarrow>
                      if b16 \<noteq> 127 then Inr True
                      else (case subscript raw 17 of Inl e \<Rightarrow> Inl e
                        | Inr b17 \<Rightarrow> Inr (b17 \<noteq> 255)))))"

text \<open>\<open>data_buffer.append(r)\<close>, lines 90 to 95.\<close>

definition buffer_append :: "'id reading \<Rightarrow> 'id globals \<Rightarrow> 'id globals" where
  "buffer_append r g = g\<lparr>data_buffer := data_buffer g @ [r]\<rparr>"

text \<open>
  The body of the \<open>try\<close> block, lines 86 to 96. \<open>now\<close> is the value of
  \<open>int(time.time())\<close> at the call. The result is what the block printed, or the exception
  that ended it, together with the globals it leaves: the append of line 90 comes
  before the \<open>print\<close> of line 96, so a \<open>print\<close> that raises leaves the reading in the
  buffer.
\<close>

definition handler_try ::
  "stdout \<Rightarrow> int \<Rightarrow> int list \<Rightarrow> 'id globals \<Rightarrow> (py_error + console) \<times> 'id globals" where
  "handler_try out now raw g =
     (case frame_condition raw of Inl e \<Rightarrow> (Inl e, g)
      | Inr False \<Rightarrow> (Inr Silent, g)
      | Inr True \<Rightarrow>
          (case subscript raw 16 of Inl e \<Rightarrow> (Inl e, g)
           | Inr s \<Rightarrow>
               (case subscript raw 17 of Inl e \<Rightarrow> (Inl e, g)
                | Inr hr \<Rightarrow>
                    (let g' = buffer_append
                           \<lparr>session_id = current_session_id g, timestamp = now,
                            spo2 = s, pulse = hr\<rparr> g
                     in case print_reading out of
                          Some e \<Rightarrow> (Inl e, g')
                        | None \<Rightarrow> (Inr (Reading_line hr s), g')))))"

text \<open>
  The handler: \<open>raw = list(data)\<close> turns the bytes into integers from 0 to 255; a frame
  shorter than 19 returns at once; \<open>except Exception\<close> prints the exception and goes on.
  The first component of the result is \<open>Inr\<close> of what was printed when the handler
  returns, and \<open>Inl\<close> of the exception when one leaves the handler: the one of the
  \<open>print\<close> inside the \<open>except\<close> branch.
\<close>

definition notification_handler ::
  "stdout \<Rightarrow> int \<Rightarrow> 8 word list \<Rightarrow> 'id globals \<Rightarrow> (py_error + console) \<times> 'id globals" where
  "notification_handler out now data g =
     (let raw = map uint data in
      if length raw < 19 then (Inr Silent, g)
      else (case handler_try out now raw g of
              (Inl e, g') \<Rightarrow>
                (case print_parse_error out of
                   Some e' \<Rightarrow> (Inl e', g')
                 | None \<Rightarrow> (Inr (Parse_error e), g'))
            | (Inr printed, g') \<Rightarrow> (Inr printed, g')))"

subsection \<open>\<open>db_writer\<close>\<close>

text \<open>
  One turn of the \<open>while True\<close> loop after \<open>asyncio.sleep\<close> has returned, lines 107 to
  114. \<open>insert_ok\<close> says whether the insert, if one is made, returns or raises. The
  buffer is cleared on line 112, inside the \<open>try\<close> and after the insert, so only when
  the insert has returned. The messages of lines 111 and 114 are plain ASCII and are
  taken to be written.
\<close>

definition db_writer_cycle :: "bool \<Rightarrow> 'id globals \<Rightarrow> 'id globals" where
  "db_writer_cycle insert_ok g =
     (if data_buffer g \<noteq> [] then
        (if insert_ok
         then g\<lparr>insert_calls := insert_calls g @ [(data_buffer g, True)],
                data_buffer := []\<rparr>
         else g\<lparr>insert_calls := insert_calls g @ [(data_buffer g, False)]\<rparr>)
      else g)"

text \<open>
  The steady state. The event loop is single-threaded: the handler runs to its end when a
  notification is delivered, and the writer's turn has no \<open>await\<close> between the test of
  the buffer and its clearing, so a run is a sequence of these two kinds of step. The
  writer's loop ends only when its task is cancelled during the sleep, so a finite run
  is a finite list of events. The globals the handler leaves are the same for every
  console (lemma \<open>handler_globals\<close>), so a step takes the one that writes everything.
\<close>

datatype event =
  Notification int "8 word list"
| Writer_wakes bool

fun step :: "event \<Rightarrow> 'id globals \<Rightarrow> 'id globals" where
  "step (Notification now data) g = snd (notification_handler Writes_all now data g)"
| "step (Writer_wakes insert_ok) g = db_writer_cycle insert_ok g"

fun run :: "event list \<Rightarrow> 'id globals \<Rightarrow> 'id globals" where
  "run [] g = g"
| "run (e # es) g = run es (step e g)"

text \<open>The globals when the module has been loaded and \<open>main\<close> has resolved the session.\<close>

definition initial_globals :: "'id option \<Rightarrow> 'id globals" where
  "initial_globals sid = \<lparr>data_buffer = [], current_session_id = sid, insert_calls = []\<rparr>"

subsection \<open>\<open>request_session\<close> and \<open>find_device\<close>\<close>

text \<open>
  What \<open>requests.post\<close> does: it raises, or it returns a response with its \<open>ok\<close> flag
  and, in the JSON body, the value under \<open>'session_key'\<close> if there is one.
\<close>

datatype post_outcome =
  Post_raises
| Post_response bool "string option"

text \<open>
  Lines 39 to 50. Every exception of the \<open>try\<close> block (the one of the post, the one
  raised on line 47 for a response that is not ok, the \<open>KeyError\<close> of a body without
  the key) ends in \<open>return None\<close>.
\<close>

definition request_session :: "post_outcome \<Rightarrow> string option" where
  "request_session p =
     (case p of
        Post_raises \<Rightarrow> None
      | Post_response ok body \<Rightarrow>
          (if ok then (case body of None \<Rightarrow> None | Some k \<Rightarrow> Some k) else None))"

record device =
  name :: "string option"
  address :: string

record characteristic =
  uuid :: string
  properties :: "string list"

record service =
  characteristics :: "characteristic list"

text \<open>What the orchestrator does to the outside, in the order it does it.\<close>

datatype action =
  Post_session_new
| Select_session_id string
| Scan
| Connect string
| Disconnect string
| Start_notify string
| Create_writer_task
| Await_signal
| Stop_notify string
| Cancel_writer_task

text \<open>The loop of lines 58 to 62: the address of the first device with the name, or the
  value \<open>DEVICE_ADDRESS\<close> had.\<close>

fun scan_loop :: "device list \<Rightarrow> string \<Rightarrow> string" where
  "scan_loop [] addr = addr"
| "scan_loop (d # ds) addr =
     (if name d = Some ''BLT_M70C'' then address d else scan_loop ds addr)"

text \<open>The loops of lines 69 to 72: the first characteristic with \<open>"notify"\<close> among its
  properties.\<close>

fun chars_loop :: "characteristic list \<Rightarrow> string option" where
  "chars_loop [] = None"
| "chars_loop (c # cs) =
     (if ''notify'' \<in> set (properties c) then Some (uuid c) else chars_loop cs)"

fun services_loop :: "service list \<Rightarrow> string option" where
  "services_loop [] = None"
| "services_loop (s # ss) =
     (case chars_loop (characteristics s) of
        Some u \<Rightarrow> Some u
      | None \<Rightarrow> services_loop ss)"

text \<open>
  \<open>find_device\<close>: the result (\<open>None\<close> for the \<open>-1\<close> of the source), the new value of the
  global \<open>DEVICE_ADDRESS\<close>, and the actions. The \<open>async with\<close> of line 67 connects and,
  on the way out, disconnects.
\<close>

definition find_device ::
  "device list \<Rightarrow> service list \<Rightarrow> string \<Rightarrow> string option \<times> string \<times> action list" where
  "find_device devices services addr0 =
     (let addr = scan_loop devices addr0 in
      if addr = [] then (None, addr, [Scan])
      else (services_loop services, addr, [Scan, Connect addr, Disconnect addr]))"

subsection \<open>\<open>main\<close>\<close>

datatype signal = KeyboardInterrupt | CancelledError

text \<open>
  What a run meets: the outcome of the post, the outcome of the query for the session id
  (it raises, or it returns the ids of the rows with the key), the devices the scan
  returns, the services of the device, the events of the steady state, and the
  exception that ends \<open>asyncio.Event().wait()\<close>, if one ever does, the console as it
  is when the wait ends, and the exception \<open>client.stop_notify\<close> raises, if it raises
  one (it does when the link has dropped). The other calls outside any \<open>try\<close> block
  (scan, connect, start of the notifications) are taken to return, and the messages
  printed before the wait, all plain ASCII, are taken to be written.
\<close>

record 'id env =
  post :: post_outcome
  select_ids :: "py_error + 'id list"
  devices :: "device list"
  services :: "service list"
  events :: "event list"
  interrupt :: "signal option"
  console_at_interrupt :: stdout
  stop_notify_raises :: "py_error option"

record 'id outcome =
  trace :: "action list"
  globals_end :: "'id globals"
  returned :: bool
  raised :: "py_error option"

text \<open>
  The \<open>async with\<close> block of lines 157 to 172. Both exceptions that can end the wait are
  caught on line 167. The \<open>print\<close> of line 168 is inside the \<open>except\<close> branch, and lines
  170 to 172 are in no \<open>try\<close> block. So when the console cannot be written to, the
  \<open>print\<close> of line 168 raises and neither \<open>stop_notify\<close> nor \<open>writer_task.cancel()\<close> is
  reached; when \<open>stop_notify\<close> raises, \<open>writer_task.cancel()\<close> is not reached. In both
  cases the exception leaves the \<open>async with\<close> block, which disconnects on the way
  out, and \<open>main\<close> raises.
\<close>

definition steady_state ::
  "'id env \<Rightarrow> string \<Rightarrow> string \<Rightarrow> action list \<Rightarrow> 'id globals \<Rightarrow> 'id outcome" where
  "steady_state e addr char tr g =
     (let g' = run (events e) g;
          tr' = tr @ [Connect addr, Start_notify char, Create_writer_task, Await_signal]
      in case interrupt e of
           None \<Rightarrow> \<lparr>trace = tr', globals_end = g', returned = False, raised = None\<rparr>
         | Some sig \<Rightarrow>
             (if console_at_interrupt e = Closed
              then \<lparr>trace = tr' @ [Disconnect addr],
                    globals_end = g', returned = False, raised = Some OSError\<rparr>
              else
                (case stop_notify_raises e of
                   None \<Rightarrow>
                     \<lparr>trace = tr' @ [Stop_notify char, Cancel_writer_task, Disconnect addr],
                      globals_end = g', returned = True, raised = None\<rparr>
                 | Some err \<Rightarrow>
                     \<lparr>trace = tr' @ [Stop_notify char, Disconnect addr],
                      globals_end = g', returned = False, raised = Some err\<rparr>)))"

text \<open>
  \<open>main\<close>, lines 117 to 172. The globals start as the module sets them: an empty
  buffer, no session id, \<open>DEVICE_ADDRESS = ""\<close>.
\<close>

definition main :: "'id env \<Rightarrow> 'id outcome" where
  "main e =
     (let g0 = initial_globals None in
      case request_session (post e) of
        None \<Rightarrow> \<lparr>trace = [Post_session_new], globals_end = g0, returned = True, raised = None\<rparr>
      | Some key \<Rightarrow>
          if key = [] then \<lparr>trace = [Post_session_new], globals_end = g0, returned = True, raised = None\<rparr>
          else
            (let tr1 = [Post_session_new, Select_session_id key] in
             case select_ids e of
               Inl err \<Rightarrow> \<lparr>trace = tr1, globals_end = g0, returned = True, raised = None\<rparr>
             | Inr [] \<Rightarrow> \<lparr>trace = tr1, globals_end = g0, returned = True, raised = None\<rparr>
             | Inr (sid # rest) \<Rightarrow>
                 (let g1 = g0\<lparr>current_session_id := Some sid\<rparr> in
                  case find_device (devices e) (services e) [] of
                    (None, addr, tr2) \<Rightarrow>
                      \<lparr>trace = tr1 @ tr2, globals_end = g1, returned = True, raised = None\<rparr>
                  | (Some char, addr, tr2) \<Rightarrow>
                      steady_state e addr char (tr1 @ tr2) g1)))"

section \<open>The retrieval service: \<^verbatim>\<open>backend/src/app.py\<close>\<close>

subsection \<open>The store\<close>

record 'id session_row =
  id_col :: 'id
  session_key :: string
  start_time :: string

record 'id db =
  sessions :: "'id session_row list"
  health_data :: "'id reading list"

text \<open>\<open>execute()\<close> returns what the query selects, or raises.\<close>

definition execute :: "bool \<Rightarrow> 'a \<Rightarrow> py_error + 'a" where
  "execute answers result = (if answers then Inr result else Inl APIError)"

text \<open>\<open>table('sessions').select('id').eq('session_key', key)\<close>\<close>

definition select_session_ids :: "'id db \<Rightarrow> string \<Rightarrow> 'id list" where
  "select_session_ids d key = map id_col (filter (\<lambda>r. session_key r = key) (sessions d))"

text \<open>
  \<open>table('health_data').select('*').eq('session_id', sid).order('timestamp',
  desc=True).limit(50)\<close>: the rows of the session, sorted by decreasing timestamp, the
  first 50 of them.
\<close>

definition select_health_data :: "'id db \<Rightarrow> 'id \<Rightarrow> 'id reading list" where
  "select_health_data d sid =
     take 50 (sort_key (\<lambda>r. - timestamp r)
       (filter (\<lambda>r. session_id r = Some sid) (health_data d)))"

datatype 'id response =
  Json_rows "'id reading list"
| Json_session_key string
| Not_found_404
| Abort_500

subsection \<open>\<open>get_data\<close>\<close>

text \<open>Lines 43 to 70. \<open>a1\<close> and \<open>a2\<close> say whether the first and the second query are
  answered; an exception of either ends in \<open>abort(500)\<close>.\<close>

definition get_data :: "bool \<Rightarrow> bool \<Rightarrow> 'id db \<Rightarrow> string \<Rightarrow> 'id response" where
  "get_data a1 a2 d key =
     (case execute a1 (select_session_ids d key) of
        Inl e \<Rightarrow> Abort_500
      | Inr [] \<Rightarrow> Not_found_404
      | Inr (sid # rest) \<Rightarrow>
          (case execute a2 (select_health_data d sid) of
             Inl e \<Rightarrow> Abort_500
           | Inr rows \<Rightarrow> Json_rows rows))"

subsection \<open>\<open>create_session\<close>\<close>

text \<open>\<open>str.upper\<close> on a character of the ASCII range.\<close>

definition upper_char :: "char \<Rightarrow> char" where
  "upper_char c =
     (if 97 \<le> (of_char c :: nat) \<and> (of_char c :: nat) \<le> 122
      then char_of ((of_char c :: nat) - 32) else c)"

definition is_lower :: "char \<Rightarrow> bool" where
  "is_lower c \<longleftrightarrow> 97 \<le> (of_char c :: nat) \<and> (of_char c :: nat) \<le> 122"

text \<open>Line 26: \<open>str(u)[:6].upper()\<close>, for \<open>u\<close> the string of the UUID.\<close>

definition new_session_key :: "string \<Rightarrow> string" where
  "new_session_key u = map upper_char (take 6 u)"

text \<open>
  Lines 25 to 40. \<open>u\<close> is \<open>str(uuid.uuid4())\<close>, \<open>now\<close> is
  \<open>datetime.utcnow().isoformat()\<close>, \<open>new_id\<close> the id the store gives the row, and
  \<open>answers\<close> says whether the insert returns.
\<close>

definition create_session ::
  "string \<Rightarrow> string \<Rightarrow> 'id \<Rightarrow> bool \<Rightarrow> 'id db \<Rightarrow> 'id response \<times> 'id db" where
  "create_session u now new_id answers d =
     (let key = new_session_key u;
          d' = d\<lparr>sessions := sessions d @
                 [\<lparr>id_col = new_id, session_key = key, start_time = now\<rparr>]\<rparr>
      in case execute answers d' of
           Inl e \<Rightarrow> (Abort_500, d)
         | Inr d'' \<Rightarrow> (Json_session_key key, d''))"

text \<open>
  The strings \<open>str(uuid.uuid4())\<close> returns: 36 characters, hyphens at 8, 13, 18 and 23,
  lower-case hexadecimal digits elsewhere, the version digit \<open>4\<close> at 14 and a variant
  digit among \<open>8 9 a b\<close> at 19.
\<close>

definition is_uuid4_str :: "string \<Rightarrow> bool" where
  "is_uuid4_str u \<longleftrightarrow>
     length u = 36 \<and>
     list_all (\<lambda>i. if i \<in> {8, 13, 18, 23} then u ! i = CHR ''-''
                    else u ! i \<in> set ''0123456789abcdef'') [0..<36] \<and>
     u ! 14 = CHR ''4'' \<and> u ! 19 \<in> set ''89ab''"

section \<open>The properties, in the words of the specification\<close>

text \<open>
  The validity rule of the frame format: at least 19 bytes, byte 18 is 255, and bytes 15
  to 17 are not \<open>(255, 127, 255)\<close>.
\<close>

definition valid_frame_spec :: "8 word list \<Rightarrow> bool" where
  "valid_frame_spec data \<longleftrightarrow>
     19 \<le> length data \<and> data ! 18 = 255 \<and>
     (data ! 15, data ! 16, data ! 17) \<noteq> (255, 127, 255)"

text \<open>
  The readings one event decodes, read off the frame by the rule of the frame format (a
  valid frame is one reading, with byte 16 as \<open>spo2\<close>, byte 17 as \<open>pulse\<close>, the session
  of the run and the time of the notification; any other frame and a turn of the writer
  are none), and the readings a run decodes, in order.
\<close>

fun decoded_by :: "'id option \<Rightarrow> event \<Rightarrow> 'id reading list" where
  "decoded_by sid (Notification now data) =
     (if valid_frame_spec data
      then [\<lparr>session_id = sid, timestamp = now,
              spo2 = uint (data ! 16), pulse = uint (data ! 17)\<rparr>]
      else [])"
| "decoded_by sid (Writer_wakes ok) = []"

definition decoded :: "'id option \<Rightarrow> event list \<Rightarrow> 'id reading list" where
  "decoded sid es = concat (map (decoded_by sid) es)"

text \<open>
  A successful flush is a turn of the writer that finds readings in the buffer and whose
  insert returns. \<open>since_flush es g acc\<close> walks the run \<open>es\<close> from the globals \<open>g\<close> and
  returns the events after the last successful flush; \<open>acc\<close> holds the events seen
  since the last one.
\<close>

definition flushes :: "event \<Rightarrow> 'id globals \<Rightarrow> bool" where
  "flushes e g \<longleftrightarrow> e = Writer_wakes True \<and> data_buffer g \<noteq> []"

fun since_flush :: "event list \<Rightarrow> 'id globals \<Rightarrow> event list \<Rightarrow> event list" where
  "since_flush [] g acc = acc"
| "since_flush (e # es) g acc =
     since_flush es (step e g) (if flushes e g then [] else acc @ [e])"


text \<open>The four failures of the set-up, read off what the run meets.\<close>

definition issuance_failed :: "'id env \<Rightarrow> bool" where
  "issuance_failed e \<longleftrightarrow>
     (case post e of
        Post_raises \<Rightarrow> True
      | Post_response ok body \<Rightarrow> \<not> ok \<or> body = None \<or> body = Some [])"

definition session_not_found :: "'id env \<Rightarrow> bool" where
  "session_not_found e \<longleftrightarrow> (case select_ids e of Inl err \<Rightarrow> True | Inr ids \<Rightarrow> ids = [])"

definition device_not_found :: "'id env \<Rightarrow> bool" where
  "device_not_found e \<longleftrightarrow> list_all (\<lambda>d. name d \<noteq> Some ''BLT_M70C'') (devices e)"

definition no_notifiable_channel :: "'id env \<Rightarrow> bool" where
  "no_notifiable_channel e \<longleftrightarrow>
     list_all (\<lambda>s. list_all (\<lambda>c. ''notify'' \<notin> set (properties c)) (characteristics s))
       (services e)"

definition setup_failed :: "'id env \<Rightarrow> bool" where
  "setup_failed e \<longleftrightarrow>
     issuance_failed e \<or> session_not_found e \<or> device_not_found e \<or> no_notifiable_channel e"

text \<open>The actions of the subscription and flush stage.\<close>

definition steady_action :: "action \<Rightarrow> bool" where
  "steady_action a \<longleftrightarrow>
     (case a of
        Start_notify c \<Rightarrow> True
      | Create_writer_task \<Rightarrow> True
      | Await_signal \<Rightarrow> True
      | Stop_notify c \<Rightarrow> True
      | Cancel_writer_task \<Rightarrow> True
      | _ \<Rightarrow> False)"

text \<open>The frames of scenarios A and B: bytes 15 to 18 are \<open>0, 10, 72, 255\<close> and
  \<open>255, 127, 255, 255\<close>.\<close>

definition scenario_A :: "8 word list" where
  "scenario_A = [0, 0, 0, 0, 0, 0, 0, 0, 0, 0, 0, 0, 0, 0, 0, 0, 10, 72, 255]"

definition scenario_B :: "8 word list" where
  "scenario_B = [0, 0, 0, 0, 0, 0, 0, 0, 0, 0, 0, 0, 0, 0, 0, 255, 127, 255, 255]"

text \<open>A reading of session 1, for the examples.\<close>

definition sample :: "int \<Rightarrow> nat reading" where
  "sample t = \<lparr>session_id = Some 1, timestamp = t, spo2 = 97, pulse = 60 + t\<rparr>"

definition is_notification :: "event \<Rightarrow> bool" where
  "is_notification e \<longleftrightarrow> (case e of Notification now data \<Rightarrow> True | Writer_wakes ok \<Rightarrow> False)"

text \<open>A run in which every step of the set-up succeeds, for the examples: the key of
  scenario C, one session row, the device and one channel that notifies.\<close>

definition sample_env :: "nat env" where
  "sample_env =
     \<lparr>post = Post_response True (Some ''AB12CD''),
      select_ids = Inr [7],
      devices = [\<lparr>name = None, address = ''11:22:33:44:55:66''\<rparr>,
                 \<lparr>name = Some ''BLT_M70C'', address = ''AA:BB:CC:DD:EE:FF''\<rparr>],
      services = [\<lparr>characteristics =
                    [\<lparr>uuid = ''2a00'', properties = [''read'']\<rparr>,
                     \<lparr>uuid = ''ffe4'', properties = [''read'', ''notify'']\<rparr>]\<rparr>],
      events = [Notification 1 scenario_A, Writer_wakes True],
      interrupt = Some CancelledError,
      console_at_interrupt = Writes_all,
      stop_notify_raises = None\<rparr>"

text \<open>A run that does not enter the \<open>async with\<close> block of line 157 has returned, and
  no action of the subscription and flush stage is in its trace.\<close>

definition aborted :: "'id outcome \<Rightarrow> bool" where
  "aborted out \<longleftrightarrow> returned out \<and> list_all (\<lambda>a. \<not> steady_action a) (trace out)"

text \<open>Two strings \<open>str(uuid.uuid4())\<close> can return, and a store, for the examples.\<close>

definition uuid_one :: string where
  "uuid_one = ''3f2a9c1e-0b7d-4c55-8e21-7a90d4f3b6c2''"

definition uuid_two :: string where
  "uuid_two = ''3f2a9c77-51aa-4e0f-b3c9-0d18e6a2f594''"

definition sample_db :: "nat db" where
  "sample_db =
     \<lparr>sessions =
        [\<lparr>id_col = 6, session_key = ''0C41F7'', start_time = ''2024-05-01T10:00:00''\<rparr>,
         \<lparr>id_col = 7, session_key = ''AB12CD'', start_time = ''2024-05-01T11:00:00''\<rparr>],
      health_data =
        [\<lparr>session_id = Some 7, timestamp = 100, spo2 = 97, pulse = 61\<rparr>,
         \<lparr>session_id = Some 6, timestamp = 101, spo2 = 95, pulse = 80\<rparr>,
         \<lparr>session_id = Some 7, timestamp = 105, spo2 = 98, pulse = 63\<rparr>,
         \<lparr>session_id = Some 7, timestamp = 102, spo2 = 96, pulse = 62\<rparr>]\<rparr>"


section \<open>The frame decoder\<close>

lemma subscript_in_range: "i < length xs \<Longrightarrow> subscript xs i = Inr (xs ! i)"
  by (simp add: subscript_def)

lemma uint_byte_eq: "(uint (w :: 8 word) = 255) = (w = 255)" "(uint w = 127) = (w = 127)"
  by (simp_all add: word_uint_eq_iff)

lemma frame_condition_long:
  assumes "19 \<le> length data"
  shows "frame_condition (map uint data) = Inr (valid_frame_spec data)"
  using assms
  by (simp add: frame_condition_def subscript_in_range valid_frame_spec_def uint_byte_eq)

lemma handler_try_long:
  assumes "19 \<le> length data"
  shows "handler_try out now (map uint data) g =
     (if valid_frame_spec data
      then (case print_reading out of
              Some e \<Rightarrow> Inl e
            | None \<Rightarrow> Inr (Reading_line (uint (data ! 17)) (uint (data ! 16))),
            buffer_append \<lparr>session_id = current_session_id g, timestamp = now,
              spo2 = uint (data ! 16), pulse = uint (data ! 17)\<rparr> g)
      else (Inr Silent, g))"
  using assms
  by (simp add: handler_try_def frame_condition_long subscript_in_range Let_def
      split: option.splits)

text \<open>The globals the handler leaves, for every console.\<close>

lemma handler_globals:
  "snd (notification_handler out now data g) =
     (if valid_frame_spec data
      then buffer_append \<lparr>session_id = current_session_id g, timestamp = now,
             spo2 = uint (data ! 16), pulse = uint (data ! 17)\<rparr> g
      else g)"
proof (cases "19 \<le> length data")
  case True
  then show ?thesis
    by (simp add: notification_handler_def handler_try_long split: option.splits)
next
  case False
  then show ?thesis
    by (simp add: notification_handler_def valid_frame_spec_def)
qed







section \<open>The buffer and the writer\<close>

lemma step_session: "current_session_id (step e g) = current_session_id g"
  by (cases e)
     (simp_all add: handler_globals buffer_append_def db_writer_cycle_def)

lemma run_session: "current_session_id (run es g) = current_session_id g"
  by (induction es arbitrary: g) (simp_all add: step_session)

lemma decoded_by_notification:
  "decoded_by sid (Notification now data) =
     (if valid_frame_spec data
      then [\<lparr>session_id = sid, timestamp = now,
              spo2 = uint (data ! 16), pulse = uint (data ! 17)\<rparr>]
      else [])"
  by simp

lemma decoded_by_wake: "decoded_by sid (Writer_wakes ok) = []"
  by simp


lemma decoded_Cons: "decoded sid (e # es) = decoded_by sid e @ decoded sid es"
  by (simp add: decoded_def)

lemma decoded_Nil: "decoded sid [] = []"
  by (simp add: decoded_def)

text \<open>What one step does to the buffer and to the list of calls.\<close>

lemma step_buffer:
  "data_buffer (step e g) =
     (if flushes e g then [] else data_buffer g @ decoded_by (current_session_id g) e)"
proof (cases e)
  case (Notification now data)
  then show ?thesis
    by (simp add: flushes_def decoded_by_notification handler_globals
        buffer_append_def)
next
  case (Writer_wakes ok)
  then show ?thesis
    by (simp add: flushes_def decoded_by_wake db_writer_cycle_def)
qed


lemma step_insert_calls_notification:
  "is_notification e \<Longrightarrow> insert_calls (step e g) = insert_calls g"
  by (cases e) (simp_all add: is_notification_def handler_globals buffer_append_def)

lemma step_buffer_notification:
  "is_notification e \<Longrightarrow>
     data_buffer (step e g) = data_buffer g @ decoded_by (current_session_id g) e"
  using step_buffer [of e g] by (cases e) (simp_all add: is_notification_def flushes_def)

lemma run_notifications:
  "list_all is_notification ns \<Longrightarrow>
     insert_calls (run ns g) = insert_calls g \<and>
     data_buffer (run ns g) = data_buffer g @ decoded (current_session_id g) ns"
proof (induction ns arbitrary: g)
  case Nil
  then show ?case by (simp add: decoded_Nil)
next
  case (Cons e ns)
  then have e: "is_notification e" and ns: "list_all is_notification ns"
    by simp_all
  from Cons.IH [OF ns, of "step e g"] show ?case
    by (simp add: step_insert_calls_notification [OF e] step_buffer_notification [OF e]
        step_session decoded_Cons)
qed



text \<open>The events \<open>since_flush\<close> returns are the end of the run.\<close>

lemma since_flush_suffix: "\<exists>pre. acc @ es = pre @ since_flush es g acc"
proof (induction es arbitrary: g acc)
  case Nil
  then show ?case by simp
next
  case (Cons e es)
  show ?case
  proof (cases "flushes e g")
    case True
    from Cons.IH [of "[]" "step e g"] obtain pre where "es = pre @ since_flush es (step e g) []"
      by auto
    then have "acc @ e # es = (acc @ e # pre) @ since_flush (e # es) g acc"
      using True by simp
    then show ?thesis by blast
  next
    case False
    with Cons.IH [of "acc @ [e]" "step e g"] show ?thesis by simp
  qed
qed

lemma scenario_A_valid: "valid_frame_spec scenario_A"
  by (simp add: valid_frame_spec_def scenario_A_def)

lemma scenario_A_bytes: "uint (scenario_A ! 16) = 10" "uint (scenario_A ! 17) = 72"
  by (simp_all add: scenario_A_def)

lemma scenario_B_invalid: "\<not> valid_frame_spec scenario_B"
  by (simp add: valid_frame_spec_def scenario_B_def)

lemmas run_example_simps =
  handler_globals scenario_A_valid scenario_A_bytes scenario_B_invalid
  buffer_append_def db_writer_cycle_def initial_globals_def





text \<open>
  C2, as the code has it. When the insert of a turn of the writer raises, the buffer is
  left as it was: the batch is neither drained nor discarded. The next turn, after any
  notifications in between, hands the same readings over again, followed by the readings
  appended since.
\<close>

theorem failed_insert_keeps_batch:
  assumes "data_buffer g \<noteq> []" and "list_all is_notification ns"
  shows "data_buffer (db_writer_cycle False g) = data_buffer g \<and>
         insert_calls (db_writer_cycle ok (run ns (db_writer_cycle False g))) =
           insert_calls g @
             [(data_buffer g, False),
              (data_buffer g @ decoded (current_session_id g) ns, ok)]"
proof -
  let ?g1 = "db_writer_cycle False g"
  have g1: "data_buffer ?g1 = data_buffer g"
    "insert_calls ?g1 = insert_calls g @ [(data_buffer g, False)]"
    "current_session_id ?g1 = current_session_id g"
    using assms(1) by (simp_all add: db_writer_cycle_def)
  from run_notifications [OF assms(2), of ?g1]
  have g2: "insert_calls (run ns ?g1) = insert_calls g @ [(data_buffer g, False)]"
    "data_buffer (run ns ?g1) = data_buffer g @ decoded (current_session_id g) ns"
    by (simp_all add: g1)
  have "data_buffer (run ns ?g1) \<noteq> []"
    using assms(1) by (simp add: g2)
  then have "insert_calls (db_writer_cycle ok (run ns ?g1)) =
               insert_calls (run ns ?g1) @ [(data_buffer (run ns ?g1), ok)]"
    by (cases ok) (simp_all add: db_writer_cycle_def)
  with g1 g2 show ?thesis by simp
qed

theorem failed_insert_keeps_batch_witness:
  "data_buffer (buffer_append (sample 1) (initial_globals (Some 1))) \<noteq> [] \<and>
   list_all is_notification [Notification 2 scenario_A] \<and>
   data_buffer (db_writer_cycle False (buffer_append (sample 1) (initial_globals (Some 1)))) =
     [sample 1] \<and>
   insert_calls (db_writer_cycle True (run [Notification 2 scenario_A]
       (db_writer_cycle False (buffer_append (sample 1) (initial_globals (Some 1)))))) =
     [([sample 1], False),
      ([sample 1, \<lparr>session_id = Some 1, timestamp = 2, spo2 = 10, pulse = 72\<rparr>], True)]"
proof -
  let ?g = "buffer_append (sample 1) (initial_globals (Some 1))"
  have a: "data_buffer ?g \<noteq> []"
    by (simp add: buffer_append_def)
  have b: "list_all is_notification [Notification 2 scenario_A]"
    by (simp add: is_notification_def)
  have c: "data_buffer ?g = [sample 1]" "insert_calls ?g = []"
    "current_session_id ?g = Some 1"
    by (simp_all add: buffer_append_def initial_globals_def)
  have d: "decoded (Some (1::nat)) [Notification 2 scenario_A] =
             [\<lparr>session_id = Some 1, timestamp = 2, spo2 = 10, pulse = 72\<rparr>]"
    by (simp add: decoded_def decoded_by_notification scenario_A_valid scenario_A_bytes)
  from failed_insert_keeps_batch [OF a b, of True]
  have "data_buffer (db_writer_cycle False ?g) = [sample 1] \<and>
        insert_calls (db_writer_cycle True (run [Notification 2 scenario_A]
          (db_writer_cycle False ?g))) =
          [] @ [([sample 1], False),
            ([sample 1] @ [\<lparr>session_id = Some 1, timestamp = 2, spo2 = 10, pulse = 72\<rparr>],
             True)]"
    unfolding c d .
  with a b show ?thesis by simp
qed

text \<open>
  C2, as the claim has it, fails: a reading decoded at second 100, an insert that raises
  and the next turn of the writer. The reading of the failed batch is in the buffer
  after the failure and in the submission of the next turn.
\<close>

theorem failed_batch_discarded_counterexample:
  "data_buffer (run [Notification 100 scenario_A, Writer_wakes False]
      (initial_globals (Some (1::nat)))) =
     [\<lparr>session_id = Some 1, timestamp = 100, spo2 = 10, pulse = 72\<rparr>] \<and>
   insert_calls (run [Notification 100 scenario_A, Writer_wakes False, Writer_wakes True]
      (initial_globals (Some (1::nat)))) =
     [([\<lparr>session_id = Some 1, timestamp = 100, spo2 = 10, pulse = 72\<rparr>], False),
      ([\<lparr>session_id = Some 1, timestamp = 100, spo2 = 10, pulse = 72\<rparr>], True)]"
  by (simp add: run_example_simps)

text \<open>Three appends and a turn of the writer whose insert returns, from any buffer: the
  turn hands over what the buffer held, followed by the three readings.\<close>

lemma append_three_then_drain_any:
  "insert_calls (db_writer_cycle True
      (buffer_append r3 (buffer_append r2 (buffer_append r1 g)))) =
     insert_calls g @ [(data_buffer g @ [r1, r2, r3], True)] \<and>
   data_buffer (db_writer_cycle True
      (buffer_append r3 (buffer_append r2 (buffer_append r1 g)))) = [] \<and>
   db_writer_cycle ok (db_writer_cycle True
      (buffer_append r3 (buffer_append r2 (buffer_append r1 g)))) =
     db_writer_cycle True (buffer_append r3 (buffer_append r2 (buffer_append r1 g)))"
  by (simp add: db_writer_cycle_def buffer_append_def)

text \<open>
  C4. From an empty buffer, three appends and a drain (a turn of the writer that reaches
  line 112, its insert having returned) hand over exactly the three readings, in the
  order of the appends, and leave the buffer empty; the drain right after it finds the
  buffer empty: it makes no insert, whatever the store would answer, and the buffer
  stays empty.
\<close>

theorem append_three_then_drain:
  assumes "data_buffer g = []"
  shows "insert_calls (db_writer_cycle True
           (buffer_append r3 (buffer_append r2 (buffer_append r1 g)))) =
           insert_calls g @ [([r1, r2, r3], True)] \<and>
         data_buffer (db_writer_cycle True
           (buffer_append r3 (buffer_append r2 (buffer_append r1 g)))) = [] \<and>
         insert_calls (db_writer_cycle ok (db_writer_cycle True
           (buffer_append r3 (buffer_append r2 (buffer_append r1 g))))) =
           insert_calls g @ [([r1, r2, r3], True)] \<and>
         data_buffer (db_writer_cycle ok (db_writer_cycle True
           (buffer_append r3 (buffer_append r2 (buffer_append r1 g))))) = []"
  using assms append_three_then_drain_any [of r3 r2 r1 g ok] by simp

theorem append_three_then_drain_witness:
  "data_buffer (initial_globals (Some (1::nat))) = [] \<and>
   insert_calls (db_writer_cycle True
     (buffer_append (sample 3) (buffer_append (sample 2) (buffer_append (sample 1)
       (initial_globals (Some 1)))))) = [([sample 1, sample 2, sample 3], True)] \<and>
   data_buffer (db_writer_cycle True
     (buffer_append (sample 3) (buffer_append (sample 2) (buffer_append (sample 1)
       (initial_globals (Some 1)))))) = [] \<and>
   insert_calls (db_writer_cycle True (db_writer_cycle True
     (buffer_append (sample 3) (buffer_append (sample 2) (buffer_append (sample 1)
       (initial_globals (Some 1))))))) = [([sample 1, sample 2, sample 3], True)] \<and>
   data_buffer (db_writer_cycle True (db_writer_cycle True
     (buffer_append (sample 3) (buffer_append (sample 2) (buffer_append (sample 1)
       (initial_globals (Some 1))))))) = []"
proof -
  have e: "data_buffer (initial_globals (Some (1::nat))) = []"
    and c: "insert_calls (initial_globals (Some (1::nat))) = []"
    by (simp_all add: initial_globals_def)
  from append_three_then_drain [OF e, of "sample 3" "sample 2" "sample 1" True] e c
  show ?thesis by simp
qed

section \<open>The orchestrator\<close>

lemma scan_loop_no_match:
  "list_all (\<lambda>d. name d \<noteq> Some ''BLT_M70C'') ds \<Longrightarrow> scan_loop ds addr = addr"
  by (induction ds) simp_all

lemma chars_loop_no_notify:
  "list_all (\<lambda>c. ''notify'' \<notin> set (properties c)) cs \<Longrightarrow> chars_loop cs = None"
  by (induction cs) simp_all

lemma services_loop_no_notify:
  "list_all (\<lambda>s. list_all (\<lambda>c. ''notify'' \<notin> set (properties c)) (characteristics s)) ss
     \<Longrightarrow> services_loop ss = None"
  by (induction ss) (simp_all add: chars_loop_no_notify)

lemma find_device_quiet:
  "list_all (\<lambda>a. \<not> steady_action a) (snd (snd (find_device ds ss addr)))"
  by (simp add: find_device_def Let_def steady_action_def)

lemma find_device_fails:
  assumes "list_all (\<lambda>d. name d \<noteq> Some ''BLT_M70C'') ds \<or>
           list_all (\<lambda>s. list_all (\<lambda>c. ''notify'' \<notin> set (properties c)) (characteristics s)) ss"
  shows "fst (find_device ds ss []) = None"
  using assms
  by (auto simp: find_device_def Let_def scan_loop_no_match services_loop_no_notify)

lemma request_session_fails:
  "issuance_failed e \<Longrightarrow>
     request_session (post e) = None \<or> request_session (post e) = Some []"
  by (auto simp: issuance_failed_def request_session_def
      split: post_outcome.splits option.splits)

lemma main_aborts_without_key:
  assumes "request_session (post e) = None \<or> request_session (post e) = Some []"
  shows "aborted (main e)"
  using assms by (auto simp: main_def aborted_def steady_action_def)

lemma main_aborts_without_session:
  assumes "session_not_found e"
  shows "aborted (main e)"
  using assms
  by (auto simp: main_def aborted_def steady_action_def session_not_found_def Let_def
      split: option.splits sum.splits list.splits)

lemma main_aborts_without_channel:
  assumes "fst (find_device (devices e) (services e) []) = None"
  shows "aborted (main e)"
proof -
  obtain r addr tr where fd: "find_device (devices e) (services e) [] = (r, addr, tr)"
    by (cases "find_device (devices e) (services e) []") auto
  with assms have r: "r = None" by simp
  have quiet: "list_all (\<lambda>a. \<not> steady_action a) tr"
    using find_device_quiet [of "devices e" "services e" "[]"] fd by simp
  show ?thesis
    using quiet
    by (auto simp: main_def aborted_def steady_action_def Let_def fd r
        split: option.splits sum.splits list.splits)
qed

text \<open>
  C6. When the issuance of the session fails, or the session is not found (or its query
  raises), or the device is not found, or no channel notifies, \<open>main\<close> returns and its
  trace has no action of the subscription and flush stage: notifications are never
  started, the writer task is never created, the signal is never awaited.
\<close>

theorem setup_failure_aborts:
  assumes "setup_failed e"
  shows "returned (main e) \<and>
         (\<forall>c. Start_notify c \<notin> set (trace (main e))) \<and>
         Create_writer_task \<notin> set (trace (main e)) \<and>
         list_all (\<lambda>a. \<not> steady_action a) (trace (main e))"
proof -
  have "aborted (main e)"
    using assms
    unfolding setup_failed_def device_not_found_def no_notifiable_channel_def
    using main_aborts_without_key [OF request_session_fails]
      main_aborts_without_session main_aborts_without_channel [OF find_device_fails]
    by blast
  then have r: "returned (main e)"
    and q: "\<forall>a \<in> set (trace (main e)). \<not> steady_action a"
    by (simp_all add: aborted_def list_all_iff)
  have "\<forall>c. Start_notify c \<notin> set (trace (main e))"
    using q by (auto simp: steady_action_def)
  moreover have "Create_writer_task \<notin> set (trace (main e))"
    using q by (auto simp: steady_action_def)
  ultimately show ?thesis
    using r q by (simp add: list_all_iff)
qed

theorem setup_failure_aborts_witness:
  "device_not_found (sample_env\<lparr>devices := []\<rparr>) \<and>
   trace (main (sample_env\<lparr>devices := []\<rparr>)) =
     [Post_session_new, Select_session_id ''AB12CD'', Scan] \<and>
   returned (main (sample_env\<lparr>devices := []\<rparr>)) \<and>
   Create_writer_task \<notin> set (trace (main (sample_env\<lparr>devices := []\<rparr>)))"
proof -
  have n: "device_not_found (sample_env\<lparr>devices := []\<rparr>)"
    by (simp add: device_not_found_def sample_env_def)
  then have f: "setup_failed (sample_env\<lparr>devices := []\<rparr>)"
    by (simp add: setup_failed_def)
  have t: "trace (main (sample_env\<lparr>devices := []\<rparr>)) =
             [Post_session_new, Select_session_id ''AB12CD'', Scan]"
    by (simp add: main_def sample_env_def request_session_def find_device_def)
  from setup_failure_aborts [OF f] n t show ?thesis by simp
qed

text \<open>A run enters the subscription and flush stage only through \<open>steady_state\<close>.\<close>

lemma main_steady:
  assumes "Create_writer_task \<in> set (trace (main e))"
  shows "\<exists>pre addr char g.
           main e = steady_state e addr char pre g \<and>
           list_all (\<lambda>a. \<not> steady_action a) pre"
proof -
  obtain r addr tr where fd: "find_device (devices e) (services e) [] = (r, addr, tr)"
    by (cases "find_device (devices e) (services e) []") auto
  have quiet: "list_all (\<lambda>a. \<not> steady_action a) tr"
    using find_device_quiet [of "devices e" "services e" "[]"] fd by simp
  have notin: "Create_writer_task \<notin> set tr"
    using quiet by (auto simp: list_all_iff steady_action_def)
  show ?thesis
  proof (cases "request_session (post e)")
    case None
    with assms show ?thesis by (simp add: main_def)
  next
    case (Some key)
    show ?thesis
    proof (cases "key = []")
      case True
      with assms Some show ?thesis by (simp add: main_def)
    next
      case False
      show ?thesis
      proof (cases "select_ids e")
        case (Inl err)
        with assms Some False show ?thesis by (simp add: main_def)
      next
        case (Inr ids)
        show ?thesis
        proof (cases ids)
          case Nil
          with assms Some False Inr show ?thesis by (simp add: main_def)
        next
          case (Cons sid rest)
          show ?thesis
          proof (cases r)
            case None
            with assms Some False Inr Cons fd notin show ?thesis
              by (simp add: main_def)
          next
            case (Some char)
            have "main e = steady_state e addr char
                    ([Post_session_new, Select_session_id key] @ tr)
                    ((initial_globals None)\<lparr>current_session_id := Some sid\<rparr>)"
              using \<open>request_session (post e) = Some key\<close> False Inr Cons fd Some
              by (simp add: main_def)
            moreover have "list_all (\<lambda>a. \<not> steady_action a)
                             ([Post_session_new, Select_session_id key] @ tr)"
              using quiet by (simp add: steady_action_def)
            ultimately show ?thesis by blast
          qed
        qed
      qed
    qed
  qed
qed

text \<open>
  C9, as the code has it. When a run has reached the steady state and the wait is ended
  by a cancellation (or by a keyboard interrupt), with a console that can be written
  to, the notifications are stopped right after the wait. When \<open>stop_notify\<close> returns,
  the writer task is cancelled next, the link is disconnected last, and \<open>main\<close>
  returns. When \<open>stop_notify\<close> raises, the writer task is not cancelled, the link is
  still disconnected, and \<open>main\<close> raises. With a console that cannot be written to,
  the link is disconnected and nothing else is done.
\<close>

theorem teardown_order:
  assumes "Create_writer_task \<in> set (trace (main e))" and "interrupt e = Some sig"
  shows "\<exists>pre addr char.
           list_all (\<lambda>a. \<not> steady_action a) pre \<and>
           (if console_at_interrupt e = Closed
            then trace (main e) =
                   pre @ [Connect addr, Start_notify char, Create_writer_task, Await_signal,
                          Disconnect addr] \<and>
                 \<not> returned (main e) \<and> raised (main e) = Some OSError
            else
              (case stop_notify_raises e of
                 None \<Rightarrow>
                   trace (main e) =
                     pre @ [Connect addr, Start_notify char, Create_writer_task, Await_signal,
                            Stop_notify char, Cancel_writer_task, Disconnect addr] \<and>
                   returned (main e) \<and> raised (main e) = None
               | Some err \<Rightarrow>
                   trace (main e) =
                     pre @ [Connect addr, Start_notify char, Create_writer_task, Await_signal,
                            Stop_notify char, Disconnect addr] \<and>
                   \<not> returned (main e) \<and> raised (main e) = Some err))"
proof -
  from main_steady [OF assms(1)] obtain pre addr char g where
    m: "main e = steady_state e addr char pre g" and
    q: "list_all (\<lambda>a. \<not> steady_action a) pre"
    by blast
  have "if console_at_interrupt e = Closed
        then trace (main e) =
               pre @ [Connect addr, Start_notify char, Create_writer_task, Await_signal,
                      Disconnect addr] \<and>
             \<not> returned (main e) \<and> raised (main e) = Some OSError
        else
          (case stop_notify_raises e of
             None \<Rightarrow>
               trace (main e) =
                 pre @ [Connect addr, Start_notify char, Create_writer_task, Await_signal,
                        Stop_notify char, Cancel_writer_task, Disconnect addr] \<and>
               returned (main e) \<and> raised (main e) = None
           | Some err \<Rightarrow>
               trace (main e) =
                 pre @ [Connect addr, Start_notify char, Create_writer_task, Await_signal,
                        Stop_notify char, Disconnect addr] \<and>
               \<not> returned (main e) \<and> raised (main e) = Some err)"
    using assms(2)
    by (cases "stop_notify_raises e") (simp_all add: m steady_state_def Let_def)
  with q show ?thesis by blast
qed

theorem teardown_order_witness:
  "Create_writer_task \<in> set (trace (main sample_env)) \<and>
   interrupt sample_env = Some CancelledError \<and>
   console_at_interrupt sample_env = Writes_all \<and>
   stop_notify_raises sample_env = None \<and>
   trace (main sample_env) =
     [Post_session_new, Select_session_id ''AB12CD'', Scan,
      Connect ''AA:BB:CC:DD:EE:FF'', Disconnect ''AA:BB:CC:DD:EE:FF'',
      Connect ''AA:BB:CC:DD:EE:FF'', Start_notify ''ffe4'', Create_writer_task,
      Await_signal, Stop_notify ''ffe4'', Cancel_writer_task,
      Disconnect ''AA:BB:CC:DD:EE:FF''] \<and>
   (\<exists>pre addr char.
      list_all (\<lambda>a. \<not> steady_action a) pre \<and>
      trace (main sample_env) =
        pre @ [Connect addr, Start_notify char, Create_writer_task, Await_signal,
               Stop_notify char, Cancel_writer_task, Disconnect addr] \<and>
      returned (main sample_env) \<and> raised (main sample_env) = None)"
proof -
  have t: "trace (main sample_env) =
     [Post_session_new, Select_session_id ''AB12CD'', Scan,
      Connect ''AA:BB:CC:DD:EE:FF'', Disconnect ''AA:BB:CC:DD:EE:FF'',
      Connect ''AA:BB:CC:DD:EE:FF'', Start_notify ''ffe4'', Create_writer_task,
      Await_signal, Stop_notify ''ffe4'', Cancel_writer_task,
      Disconnect ''AA:BB:CC:DD:EE:FF'']"
    by (simp add: main_def sample_env_def request_session_def find_device_def
        steady_state_def Let_def)
  have c: "Create_writer_task \<in> set (trace (main sample_env))"
    by (simp add: t)
  have i: "interrupt sample_env = Some CancelledError"
    by (simp add: sample_env_def)
  have w: "console_at_interrupt sample_env = Writes_all"
    by (simp add: sample_env_def)
  have n: "stop_notify_raises sample_env = None"
    by (simp add: sample_env_def)
  from teardown_order [OF c i]
  have "\<exists>pre addr char.
      list_all (\<lambda>a. \<not> steady_action a) pre \<and>
      trace (main sample_env) =
        pre @ [Connect addr, Start_notify char, Create_writer_task, Await_signal,
               Stop_notify char, Cancel_writer_task, Disconnect addr] \<and>
      returned (main sample_env) \<and> raised (main sample_env) = None"
    by (simp add: n w)
  with c i w n t show ?thesis by blast
qed

text \<open>
  C9, as the claim has it, fails: the run of the examples, with a link that has dropped
  when the cancellation comes. \<open>stop_notify\<close> raises, \<open>writer_task.cancel()\<close> is not
  reached, and \<open>main\<close> raises after the disconnection.
\<close>

theorem teardown_order_counterexample:
  "Create_writer_task \<in>
     set (trace (main (sample_env\<lparr>stop_notify_raises := Some BleakError\<rparr>))) \<and>
   interrupt (sample_env\<lparr>stop_notify_raises := Some BleakError\<rparr>) = Some CancelledError \<and>
   trace (main (sample_env\<lparr>stop_notify_raises := Some BleakError\<rparr>)) =
     [Post_session_new, Select_session_id ''AB12CD'', Scan,
      Connect ''AA:BB:CC:DD:EE:FF'', Disconnect ''AA:BB:CC:DD:EE:FF'',
      Connect ''AA:BB:CC:DD:EE:FF'', Start_notify ''ffe4'', Create_writer_task,
      Await_signal, Stop_notify ''ffe4'', Disconnect ''AA:BB:CC:DD:EE:FF''] \<and>
   Cancel_writer_task \<notin>
     set (trace (main (sample_env\<lparr>stop_notify_raises := Some BleakError\<rparr>))) \<and>
   \<not> returned (main (sample_env\<lparr>stop_notify_raises := Some BleakError\<rparr>)) \<and>
   raised (main (sample_env\<lparr>stop_notify_raises := Some BleakError\<rparr>)) = Some BleakError"
  by (simp add: main_def sample_env_def request_session_def find_device_def
      steady_state_def Let_def)

section \<open>The retrieval service\<close>

lemma filter_Cons_find: "filter P xs = y # ys \<Longrightarrow> find P xs = Some y"
  by (induction xs) (auto split: if_splits)

lemma find_Some_filter: "find P xs = Some y \<Longrightarrow> \<exists>ys. filter P xs = y # ys"
  by (induction xs) (auto split: if_splits)


lemma select_session_ids_first:
  assumes "find (\<lambda>r. session_key r = key) (sessions d) = Some s"
  shows "\<exists>rest. select_session_ids d key = id_col s # rest"
  using find_Some_filter [OF assms] by (auto simp: select_session_ids_def)





text \<open>When the store does not answer, the result is the 500 of \<open>abort\<close>.\<close>

lemma get_data_store_fails:
  "get_data False a2 d key = Abort_500"
  "find (\<lambda>r. session_key r = key) (sessions d) = Some s \<Longrightarrow>
     get_data True False d key = Abort_500"
  using select_session_ids_first [of key d s]
  by (auto simp: get_data_def execute_def)



section \<open>Session keys\<close>

lemma upper_char_hex:
  "upper_char CHR ''0'' = CHR ''0''" "upper_char CHR ''1'' = CHR ''1''"
  "upper_char CHR ''2'' = CHR ''2''" "upper_char CHR ''3'' = CHR ''3''"
  "upper_char CHR ''4'' = CHR ''4''" "upper_char CHR ''5'' = CHR ''5''"
  "upper_char CHR ''6'' = CHR ''6''" "upper_char CHR ''7'' = CHR ''7''"
  "upper_char CHR ''8'' = CHR ''8''" "upper_char CHR ''9'' = CHR ''9''"
  "upper_char CHR ''a'' = CHR ''A''" "upper_char CHR ''b'' = CHR ''B''"
  "upper_char CHR ''c'' = CHR ''C''" "upper_char CHR ''d'' = CHR ''D''"
  "upper_char CHR ''e'' = CHR ''E''" "upper_char CHR ''f'' = CHR ''F''"
  by code_simp+

lemma upper_char_hex_upper:
  "c \<in> set ''0123456789abcdef'' \<Longrightarrow>
     upper_char c \<in> set ''0123456789ABCDEF'' \<and> \<not> is_lower (upper_char c)"
  by (auto simp: upper_char_hex is_lower_def)

lemma upper_char_inj: "inj_on upper_char (set ''0123456789abcdef'')"
  by (auto simp: inj_on_def upper_char_hex)

lemma uuid4_length: "is_uuid4_str u \<Longrightarrow> length u = 36"
  by (simp add: is_uuid4_str_def)

lemma uuid4_prefix_hex:
  assumes "is_uuid4_str u" and "i < 6"
  shows "u ! i \<in> set ''0123456789abcdef''"
proof -
  from assms(1) have "\<forall>i \<in> set [0..<36]. if i \<in> {8, 13, 18, 23} then u ! i = CHR ''-''
                    else u ! i \<in> set ''0123456789abcdef''"
    unfolding is_uuid4_str_def list_all_iff by blast
  moreover have "i \<in> set [0..<36]" and "i \<notin> {8, 13, 18, 23}"
    using assms(2) by simp_all
  ultimately show ?thesis by metis
qed

lemma uuid4_take_hex:
  assumes "is_uuid4_str u"
  shows "set (take 6 u) \<subseteq> set ''0123456789abcdef''"
proof
  fix c
  assume "c \<in> set (take 6 u)"
  then obtain i where i: "i < length (take 6 u)" and c: "c = take 6 u ! i"
    by (metis in_set_conv_nth)
  from i have "i < 6" by simp
  with c have "c = u ! i" by simp
  with uuid4_prefix_hex [OF assms \<open>i < 6\<close>] show "c \<in> set ''0123456789abcdef''"
    by simp
qed

lemma create_session_key:
  "fst (create_session u now new_id answers d) = Json_session_key k \<Longrightarrow>
     answers \<and> k = new_session_key u"
  by (cases answers) (simp_all add: create_session_def execute_def Let_def)

lemma uuid_one_ok: "is_uuid4_str uuid_one"
  by code_simp

lemma uuid_two_ok: "is_uuid4_str uuid_two"
  by code_simp

lemma uuid_keys: "new_session_key uuid_one = ''3F2A9C''" "new_session_key uuid_two = ''3F2A9C''"
  by code_simp+

text \<open>
  C10. A session key the endpoint returns is the first six characters of the UUID's
  string in upper case: it has length 6, none of its characters is a lower-case letter,
  and all of them are digits or letters from A to F.
\<close>

theorem session_key_shape:
  assumes "is_uuid4_str u"
    and "fst (create_session u now new_id answers d) = Json_session_key k"
  shows "k = map upper_char (take 6 u) \<and> length k = 6 \<and>
         (\<forall>c \<in> set k. \<not> is_lower c \<and> c \<in> set ''0123456789ABCDEF'')"
proof -
  from create_session_key [OF assms(2)] have k: "k = map upper_char (take 6 u)"
    by (simp add: new_session_key_def)
  have len: "length k = 6"
    using uuid4_length [OF assms(1)] by (simp add: k)
  have "\<not> is_lower c \<and> c \<in> set ''0123456789ABCDEF''" if "c \<in> set k" for c
  proof -
    from that k obtain x where x: "x \<in> set (take 6 u)" and c: "c = upper_char x"
      by auto
    from x uuid4_take_hex [OF assms(1)] have "x \<in> set ''0123456789abcdef''"
      by blast
    from upper_char_hex_upper [OF this] c show ?thesis by simp
  qed
  with k len show ?thesis by blast
qed

theorem session_key_shape_witness:
  "is_uuid4_str uuid_one \<and>
   fst (create_session uuid_one ''2024-05-01T12:00:00'' 8 True sample_db) =
     Json_session_key ''3F2A9C'' \<and>
   ''3F2A9C'' = map upper_char (take 6 uuid_one) \<and> length ''3F2A9C'' = 6 \<and>
   list_all (\<lambda>c. \<not> is_lower c \<and> c \<in> set ''0123456789ABCDEF'') ''3F2A9C''"
proof -
  have r: "fst (create_session uuid_one ''2024-05-01T12:00:00'' 8 True sample_db) =
             Json_session_key ''3F2A9C''"
    by (simp add: create_session_def execute_def Let_def uuid_keys)
  from session_key_shape [OF uuid_one_ok r] uuid_one_ok r show ?thesis
    unfolding list_all_iff by blast
qed

lemma create_session_accepted:
  "create_session u now new_id True d =
     (Json_session_key (new_session_key u),
      d\<lparr>sessions := sessions d @
          [\<lparr>id_col = new_id, session_key = new_session_key u, start_time = now\<rparr>]\<rparr>)"
  by (simp add: create_session_def execute_def Let_def)

lemma new_session_key_eq_iff:
  assumes "is_uuid4_str u1" and "is_uuid4_str u2"
  shows "new_session_key u1 = new_session_key u2 \<longleftrightarrow> take 6 u1 = take 6 u2"
proof -
  have "inj_on upper_char (set (take 6 u1) \<union> set (take 6 u2))"
    using uuid4_take_hex [OF assms(1)] uuid4_take_hex [OF assms(2)]
    by (intro inj_on_subset [OF upper_char_inj]) blast
  then show ?thesis
    unfolding new_session_key_def by (rule inj_on_map_eq_map)
qed

text \<open>
  C8, as the code has it. \<open>create_session\<close> never looks for the key among the stored
  sessions: for every store, whatever sessions it holds, two creations whose inserts
  the store takes both answer with their key and both append their row; and the two
  keys are equal exactly when the strings of the two UUIDs have the same first six
  characters.
\<close>

theorem session_keys_equal_iff:
  assumes "is_uuid4_str u1" and "is_uuid4_str u2"
  shows "fst (create_session u1 t1 i1 True d) = Json_session_key (new_session_key u1) \<and>
         fst (create_session u2 t2 i2 True (snd (create_session u1 t1 i1 True d))) =
           Json_session_key (new_session_key u2) \<and>
         sessions (snd (create_session u2 t2 i2 True (snd (create_session u1 t1 i1 True d)))) =
           sessions d @
             [\<lparr>id_col = i1, session_key = new_session_key u1, start_time = t1\<rparr>,
              \<lparr>id_col = i2, session_key = new_session_key u2, start_time = t2\<rparr>] \<and>
         (new_session_key u1 = new_session_key u2 \<longleftrightarrow> take 6 u1 = take 6 u2)"
  using new_session_key_eq_iff [OF assms]
  by (simp add: create_session_accepted)

theorem session_keys_equal_iff_witness:
  "is_uuid4_str uuid_one \<and> is_uuid4_str uuid_two \<and>
   take 6 uuid_one = take 6 uuid_two \<and>
   new_session_key uuid_one = new_session_key uuid_two \<and>
   fst (create_session uuid_one ''2024-05-01T12:00:00'' 8 True sample_db) =
     Json_session_key (new_session_key uuid_one) \<and>
   fst (create_session uuid_two ''2024-05-01T12:00:05'' 9 True
     (snd (create_session uuid_one ''2024-05-01T12:00:00'' 8 True sample_db))) =
     Json_session_key (new_session_key uuid_two)"
proof -
  have "take 6 uuid_one = take 6 uuid_two"
    by (simp add: uuid_one_def uuid_two_def)
  with session_keys_equal_iff [OF uuid_one_ok uuid_two_ok,
      of "''2024-05-01T12:00:00''" 8 sample_db "''2024-05-01T12:00:05''" 9]
    uuid_one_ok uuid_two_ok
  show ?thesis by blast
qed

text \<open>
  C8, as the claim has it, fails: two creations with different UUIDs, on a store that
  takes both rows, return the same key, and the store then holds two sessions with it.
\<close>

theorem session_key_unique_counterexample:
  "uuid_one \<noteq> uuid_two \<and> is_uuid4_str uuid_one \<and> is_uuid4_str uuid_two \<and>
   fst (create_session uuid_one ''2024-05-01T12:00:00'' 8 True sample_db) =
     Json_session_key ''3F2A9C'' \<and>
   fst (create_session uuid_two ''2024-05-01T12:00:05'' 9 True
     (snd (create_session uuid_one ''2024-05-01T12:00:00'' 8 True sample_db))) =
     Json_session_key ''3F2A9C'' \<and>
   map session_key (sessions (snd (create_session uuid_two ''2024-05-01T12:00:05'' 9 True
     (snd (create_session uuid_one ''2024-05-01T12:00:00'' 8 True sample_db))))) =
     [''0C41F7'', ''AB12CD'', ''3F2A9C'', ''3F2A9C'']"
proof -
  have "uuid_one \<noteq> uuid_two"
    by (simp add: uuid_one_def uuid_two_def)
  then show ?thesis
    using uuid_one_ok uuid_two_ok
    by (simp add: create_session_def execute_def Let_def uuid_keys sample_db_def)
qed

end
